theory Spec2Isabelle
  imports Main "HOL-Library.Sublist"
begin

section \<open>Data model of the WHOIS tool\<close>

text \<open>
  The program is one Python module, \<^verbatim>\<open>main.py\<close>: a dataclass \<^verbatim>\<open>WhoisResult\<close>, a class
  \<^verbatim>\<open>WhoisTool\<close> holding the list \<^verbatim>\<open>results\<close>, and a menu loop \<^verbatim>\<open>main\<close> that calls the
  methods of one \<^verbatim>\<open>WhoisTool\<close> one at a time. The methods are modelled; the menu loop is
  replaced by arbitrary sequences of calls to them. Everything the
  program does beyond computing values is made explicit here: the list \<^verbatim>\<open>results\<close>, the
  memo table that \<^verbatim>\<open>functools.lru_cache\<close> attaches to \<^verbatim>\<open>_perform_whois_sync\<close>, the log, the
  console and the files written are fields of one record \<open>world\<close>, which every operation
  takes and returns. What the program only consumes (the answer of \<^verbatim>\<open>whois.whois\<close>, whether
  the thread pool accepts a job, whether the operating system creates a directory, opens a
  file, completes a write) is an argument of the operation that consumes it.
\<close>

subsection \<open>Exceptions\<close>

text \<open>
  Instances of Python's \<^verbatim>\<open>Exception\<close>, by class and message. Every handler of the program is
  \<^verbatim>\<open>except Exception\<close>, so only the two classes the program tells apart by raising them
  itself (\<^verbatim>\<open>ValueError\<close>) or by receiving them from the file system (\<^verbatim>\<open>OSError\<close>) have a
  constructor of their own; \<open>OtherError c m\<close> is an exception of any other class \<open>c\<close>.
  Interrupts outside \<^verbatim>\<open>Exception\<close> (\<^verbatim>\<open>KeyboardInterrupt\<close>, task cancellation) are signals
  to the menu loop and are not modelled.
\<close>

datatype exn = ValueError string | OSError string | OtherError string string

subsection \<open>Field values and their text\<close>

text \<open>
  \<^verbatim>\<open>Union[T, List[T]]\<close>: a single value or an ordered list of values.
\<close>

datatype 'a one_or_many = One 'a | Many "'a list"

text \<open>
  The dataclass \<^verbatim>\<open>WhoisResult\<close>, field by field in declaration order. The type \<open>'d\<close>
  stands for \<^verbatim>\<open>datetime\<close>, whose content the program never inspects.
\<close>

record 'd whois_result =
  domain :: string
  registrar :: "string option"
  whois_server :: "string option"
  creation_date :: "'d one_or_many option"
  expiration_date :: "'d one_or_many option"
  updated_date :: "'d one_or_many option"
  status :: "string one_or_many option"
  name_servers :: "string one_or_many option"
  emails :: "string one_or_many option"

text \<open>
  The eight attributes the program reads from the object returned by \<^verbatim>\<open>whois.whois\<close>.
\<close>

record 'd whois_entry =
  entry_registrar :: "string option"
  entry_whois_server :: "string option"
  entry_creation_date :: "'d one_or_many option"
  entry_expiration_date :: "'d one_or_many option"
  entry_updated_date :: "'d one_or_many option"
  entry_status :: "string one_or_many option"
  entry_name_servers :: "string one_or_many option"
  entry_emails :: "string one_or_many option"

text \<open>
  A field value as \<^verbatim>\<open>dataclasses.asdict\<close> hands it to \<^verbatim>\<open>str\<close>: text or dates.
\<close>

datatype 'd py_value = Text "string one_or_many" | Dates "'d one_or_many"

text \<open>
  Python's \<^verbatim>\<open>str\<close> and \<^verbatim>\<open>repr\<close> on the atoms are library code; they are parameters.
  \<^verbatim>\<open>str\<close> of a string is the string itself, and \<^verbatim>\<open>str\<close> of a list is the bracketed,
  comma-separated \<^verbatim>\<open>repr\<close> of its elements.
\<close>

record 'd py_text =
  str_datetime :: "'d \<Rightarrow> string"
  repr_datetime :: "'d \<Rightarrow> string"
  repr_str :: "string \<Rightarrow> string"

fun join :: "string \<Rightarrow> string list \<Rightarrow> string" where
  "join sep [] = []"
| "join sep [x] = x"
| "join sep (x # y # ys) = x @ sep @ join sep (y # ys)"

definition str_list :: "string list \<Rightarrow> string" where
  "str_list reprs = ''['' @ join '', '' reprs @ '']''"

fun py_str :: "'d py_text \<Rightarrow> 'd py_value \<Rightarrow> string" where
  "py_str fmt (Text (One s)) = s"
| "py_str fmt (Text (Many ss)) = str_list (map (repr_str fmt) ss)"
| "py_str fmt (Dates (One d)) = str_datetime fmt d"
| "py_str fmt (Dates (Many ds)) = str_list (map (repr_datetime fmt) ds)"

text \<open>
  \<^verbatim>\<open>asdict(self).items()\<close>: the fields by name, in declaration order.
\<close>

definition asdict :: "'d whois_result \<Rightarrow> (string \<times> 'd py_value option) list" where
  "asdict r =
     [(''domain'', Some (Text (One (domain r)))),
      (''registrar'', map_option (\<lambda>s. Text (One s)) (registrar r)),
      (''whois_server'', map_option (\<lambda>s. Text (One s)) (whois_server r)),
      (''creation_date'', map_option Dates (creation_date r)),
      (''expiration_date'', map_option Dates (expiration_date r)),
      (''updated_date'', map_option Dates (updated_date r)),
      (''status'', map_option Text (status r)),
      (''name_servers'', map_option Text (name_servers r)),
      (''emails'', map_option Text (emails r))]"

text \<open>
  \<^verbatim>\<open>WhoisResult.to_dict\<close>:
  \<^verbatim>\<open>{k: str(v) if v is not None else None for k, v in asdict(self).items()}\<close>.
  The dictionary keeps insertion order, which the CSV header depends on, so it is an
  association list.
\<close>

definition to_dict :: "'d py_text \<Rightarrow> 'd whois_result \<Rightarrow> (string \<times> string option) list" where
  "to_dict fmt r = map (\<lambda>(k, v). (k, case v of None \<Rightarrow> None | Some x \<Rightarrow> Some (py_str fmt x))) (asdict r)"

subsection \<open>Files, log and console\<close>

text \<open>
  A path is its list of components below the anchor (the working directory or the root);
  \<^verbatim>\<open>Path.parent\<close> drops the last component and leaves the anchor as it is.
\<close>

type_synonym path = "string list"

definition parent :: "path \<Rightarrow> path" where
  "parent p = butlast p"

datatype json = JNull | JString string | JArray "json list" | JObject "(string \<times> json) list"

text \<open>
  What a text file holds after the program has touched it: nothing (opened with mode
  \<^verbatim>\<open>'w'\<close> and closed), a JSON document, CSV rows (each a list of cells), or the unknown
  remains of a write that the operating system interrupted. The byte layout (indentation,
  quoting, UTF-8) is below this model.
\<close>

datatype file_data = Empty_file | Json_text json | Csv_text "string list list" | Partial_text

text \<open>
  The outcome of the three file-system requests of an export, each with the message of
  the \<^verbatim>\<open>OSError\<close> it raises, if any.
\<close>

record io_faults =
  mkdir_fault :: "string option"
  open_fault :: "string option"
  write_fault :: "string option"

text \<open>
  One constructor for each \<^verbatim>\<open>logger\<close> call of the tool's methods, with the values its
  message interpolates.
\<close>

datatype log_record =
    Info_performing string
  | Info_successful string
  | Error_lookup string exn
  | Info_exported_json path
  | Error_exporting_json exn
  | Info_exported_csv path
  | Error_exporting_csv exn

text \<open>
  One constructor for each \<^verbatim>\<open>print\<close> call of \<^verbatim>\<open>display_result\<close>.
\<close>

datatype console_line =
    No_results_available
  | Results_banner
  | Field_line string string

record 'd world =
  results :: "'d whois_result list"
  lru :: "(string \<times> 'd whois_result option) list"
  whois_calls :: "string list"
  log :: "log_record list"
  console :: "console_line list"
  dirs :: "path set"
  files :: "path \<rightharpoonup> file_data"

text \<open>
  \<^verbatim>\<open>WhoisTool()\<close> at program start: no results, an empty memo table, nothing logged or
  printed. The file system is whatever it is.
\<close>

definition init :: "path set \<Rightarrow> (path \<rightharpoonup> file_data) \<Rightarrow> 'd world" where
  "init ds fs = \<lparr>results = [], lru = [], whois_calls = [], log = [], console = [],
                 dirs = ds, files = fs\<rparr>"

section \<open>Lookup\<close>

datatype 'd whois_reply = Answers "'d whois_entry" | Fails exn

text \<open>
  The constructor call \<^verbatim>\<open>WhoisResult(domain=domain, registrar=data.registrar, ...)\<close>.
\<close>

definition make_result :: "string \<Rightarrow> 'd whois_entry \<Rightarrow> 'd whois_result" where
  "make_result d data =
     \<lparr>domain = d,
      registrar = entry_registrar data,
      whois_server = entry_whois_server data,
      creation_date = entry_creation_date data,
      expiration_date = entry_expiration_date data,
      updated_date = entry_updated_date data,
      status = entry_status data,
      name_servers = entry_name_servers data,
      emails = entry_emails data\<rparr>"

text \<open>
  The body of \<^verbatim>\<open>_perform_whois_sync\<close>, without its decorator. A reply \<open>Fails e\<close> stands for
  any exception raised inside the \<^verbatim>\<open>try\<close> block, by \<^verbatim>\<open>whois.whois\<close> or by reading an
  attribute of what it returned. The field \<open>whois_calls\<close> records the domains handed to
  \<^verbatim>\<open>whois.whois\<close>, as a counting mock of the collaborator would.
\<close>

definition whois_sync_body ::
  "string \<Rightarrow> 'd whois_reply \<Rightarrow> 'd world \<Rightarrow> 'd whois_result option \<times> 'd world" where
  "whois_sync_body d reply w =
     (let w1 = w\<lparr>log := log w @ [Info_performing d], whois_calls := whois_calls w @ [d]\<rparr> in
      case reply of
        Fails e \<Rightarrow> (None, w1\<lparr>log := log w1 @ [Error_lookup d e]\<rparr>)
      | Answers data \<Rightarrow>
          (let result = make_result d data
           in (Some result,
               w1\<lparr>results := results w1 @ [result], log := log w1 @ [Info_successful d]\<rparr>)))"

text \<open>
  \<^verbatim>\<open>functools.lru_cache(maxsize=128)\<close>. The table is ordered from the most recently used
  key to the least recently used one. A hit moves the entry to the front; a miss, once
  the function has returned, stores the new entry at the front and, when the table is
  full, drops the entry at the back. The key is the pair of the tool and the domain; the
  program creates one tool, so the domain alone is the key here.
\<close>

definition maxsize :: nat where
  "maxsize = 128"

definition cache_hit :: "'k \<Rightarrow> 'v \<Rightarrow> ('k \<times> 'v) list \<Rightarrow> ('k \<times> 'v) list" where
  "cache_hit k v c = (k, v) # filter (\<lambda>e. fst e \<noteq> k) c"

definition cache_store :: "'k \<Rightarrow> 'v \<Rightarrow> ('k \<times> 'v) list \<Rightarrow> ('k \<times> 'v) list" where
  "cache_store k v c = (k, v) # (if length c \<ge> maxsize then butlast c else c)"

text \<open>
  \<^verbatim>\<open>_perform_whois_sync\<close> as callers see it, decorator included. The returned value is
  cached whether it is a record or \<^verbatim>\<open>None\<close>: the body catches every exception, so it always
  returns.
\<close>

definition perform_whois_sync ::
  "string \<Rightarrow> 'd whois_reply \<Rightarrow> 'd world \<Rightarrow> 'd whois_result option \<times> 'd world" where
  "perform_whois_sync d reply w =
     (case map_of (lru w) d of
        Some cached \<Rightarrow> (cached, w\<lparr>lru := cache_hit d cached (lru w)\<rparr>)
      | None \<Rightarrow>
          (case whois_sync_body d reply w of
             (r, w') \<Rightarrow> (r, w'\<lparr>lru := cache_store d r (lru w')\<rparr>)))"

text \<open>
  \<^verbatim>\<open>perform_whois_async\<close>: the job is handed to the thread pool and awaited. If
  \<^verbatim>\<open>run_in_executor\<close> raises (\<open>executor_fault\<close>), the handler logs and returns \<^verbatim>\<open>None\<close>.
  The menu loop awaits each lookup before it reads the next command, so lookups run one
  at a time.
\<close>

definition perform_whois_async ::
  "exn option \<Rightarrow> string \<Rightarrow> 'd whois_reply \<Rightarrow> 'd world \<Rightarrow> 'd whois_result option \<times> 'd world" where
  "perform_whois_async executor_fault d reply w =
     (case executor_fault of
        Some e \<Rightarrow> (None, w\<lparr>log := log w @ [Error_lookup d e]\<rparr>)
      | None \<Rightarrow> perform_whois_sync d reply w)"

section \<open>Display\<close>

text \<open>
  \<^verbatim>\<open>display_result\<close>. A \<^verbatim>\<open>WhoisResult\<close> is always truthy, so \<^verbatim>\<open>not result\<close> holds for
  \<^verbatim>\<open>None\<close> only. \<^verbatim>\<open>if value\<close> skips \<^verbatim>\<open>None\<close> and the empty string.
\<close>

definition display_lines :: "'d py_text \<Rightarrow> 'd whois_result option \<Rightarrow> console_line list" where
  "display_lines fmt result =
     (case result of
        None \<Rightarrow> [No_results_available]
      | Some r \<Rightarrow>
          Results_banner #
          concat (map (\<lambda>(key, v). case v of
                                    None \<Rightarrow> []
                                  | Some s \<Rightarrow> if s = [] then [] else [Field_line key s])
                      (to_dict fmt r)))"

definition display_result :: "'d py_text \<Rightarrow> 'd whois_result option \<Rightarrow> 'd world \<Rightarrow> 'd world" where
  "display_result fmt result w = w\<lparr>console := console w @ display_lines fmt result\<rparr>"

section \<open>Export\<close>

text \<open>
  \<^verbatim>\<open>filepath.parent.mkdir(parents=True, exist_ok=True)\<close>, when it succeeds: the directory
  and every ancestor of it exist afterwards.
\<close>

definition mkdir_parents :: "path \<Rightarrow> path set \<Rightarrow> path set" where
  "mkdir_parents p ds = ds \<union> set (prefixes p)"

text \<open>
  \<^verbatim>\<open>json.dump\<close> of one \<^verbatim>\<open>to_dict()\<close>: an object with the keys in order, a string for a
  string and \<^verbatim>\<open>null\<close> for \<^verbatim>\<open>None\<close>.
\<close>

definition json_object :: "(string \<times> string option) list \<Rightarrow> json" where
  "json_object d = JObject (map (\<lambda>(k, v). (k, case v of None \<Rightarrow> JNull | Some s \<Rightarrow> JString s)) d)"

text \<open>
  The handler of \<^verbatim>\<open>export_to_json\<close>: log, then re-raise.
\<close>

definition json_failed :: "exn \<Rightarrow> 'd world \<Rightarrow> (exn + unit) \<times> 'd world" where
  "json_failed e w = (Inl e, w\<lparr>log := log w @ [Error_exporting_json e]\<rparr>)"

definition export_to_json ::
  "'d py_text \<Rightarrow> io_faults \<Rightarrow> path \<Rightarrow> 'd world \<Rightarrow> (exn + unit) \<times> 'd world" where
  "export_to_json fmt io filepath w =
     (case mkdir_fault io of
        Some m \<Rightarrow> json_failed (OSError m) w
      | None \<Rightarrow>
          (let w1 = w\<lparr>dirs := mkdir_parents (parent filepath) (dirs w)\<rparr> in
           case open_fault io of
             Some m \<Rightarrow> json_failed (OSError m) w1
           | None \<Rightarrow>
               (let w2 = w1\<lparr>files := (files w1)(filepath \<mapsto> Empty_file)\<rparr> in
                case write_fault io of
                  Some m \<Rightarrow> json_failed (OSError m) (w2\<lparr>files := (files w2)(filepath \<mapsto> Partial_text)\<rparr>)
                | None \<Rightarrow>
                    (Inr (),
                     w2\<lparr>files := (files w2)(filepath \<mapsto>
                           Json_text (JArray (map (\<lambda>r. json_object (to_dict fmt r)) (results w2)))),
                        log := log w2 @ [Info_exported_json filepath]\<rparr>))))"

text \<open>
  \<^verbatim>\<open>csv.DictWriter\<close> with its defaults (\<^verbatim>\<open>restval=''\<close>, \<^verbatim>\<open>extrasaction='raise'\<close>): a row
  dictionary with a key outside the field names raises \<^verbatim>\<open>ValueError\<close>; otherwise the row
  is the values in field-name order, a missing key giving \<^verbatim>\<open>restval\<close>. The writer puts
  \<^verbatim>\<open>None\<close> as the empty cell.
\<close>

definition csv_cell :: "string option \<Rightarrow> string" where
  "csv_cell v = (case v of None \<Rightarrow> [] | Some s \<Rightarrow> s)"

definition dict_to_list :: "string list \<Rightarrow> (string \<times> string option) list \<Rightarrow> exn + string list" where
  "dict_to_list fieldnames rowdict =
     (if list_ex (\<lambda>k. k \<notin> set fieldnames) (map fst rowdict)
      then Inl (ValueError ''dict contains fields not in fieldnames'')
      else Inr (map (\<lambda>k. case map_of rowdict k of None \<Rightarrow> [] | Some v \<Rightarrow> csv_cell v) fieldnames))"

fun writerows :: "string list \<Rightarrow> (string \<times> string option) list list \<Rightarrow> exn + string list list" where
  "writerows fieldnames [] = Inr []"
| "writerows fieldnames (rowdict # rowdicts) =
     (case dict_to_list fieldnames rowdict of
        Inl e \<Rightarrow> Inl e
      | Inr row \<Rightarrow>
          (case writerows fieldnames rowdicts of
             Inl e \<Rightarrow> Inl e
           | Inr rows \<Rightarrow> Inr (row # rows)))"

text \<open>
  The handler of \<^verbatim>\<open>export_to_csv\<close>: log, then re-raise.
\<close>

definition csv_failed :: "exn \<Rightarrow> 'd world \<Rightarrow> (exn + unit) \<times> 'd world" where
  "csv_failed e w = (Inl e, w\<lparr>log := log w @ [Error_exporting_csv e]\<rparr>)"

text \<open>
  \<^verbatim>\<open>export_to_csv\<close>. The test \<^verbatim>\<open>if not self.results\<close> stands inside the \<^verbatim>\<open>with\<close> block,
  after the directory has been made and the file opened for writing.
\<close>

definition export_to_csv ::
  "'d py_text \<Rightarrow> io_faults \<Rightarrow> path \<Rightarrow> 'd world \<Rightarrow> (exn + unit) \<times> 'd world" where
  "export_to_csv fmt io filepath w =
     (case mkdir_fault io of
        Some m \<Rightarrow> csv_failed (OSError m) w
      | None \<Rightarrow>
          (let w1 = w\<lparr>dirs := mkdir_parents (parent filepath) (dirs w)\<rparr> in
           case open_fault io of
             Some m \<Rightarrow> csv_failed (OSError m) w1
           | None \<Rightarrow>
               (let w2 = w1\<lparr>files := (files w1)(filepath \<mapsto> Empty_file)\<rparr> in
                case results w2 of
                  [] \<Rightarrow> csv_failed (ValueError ''No results to export'') w2
                | first # _ \<Rightarrow>
                    (let fieldnames = map fst (to_dict fmt first) in
                     case writerows fieldnames (map (to_dict fmt) (results w2)) of
                       Inl e \<Rightarrow> csv_failed e (w2\<lparr>files := (files w2)(filepath \<mapsto> Partial_text)\<rparr>)
                     | Inr rows \<Rightarrow>
                         (case write_fault io of
                            Some m \<Rightarrow>
                              csv_failed (OSError m) (w2\<lparr>files := (files w2)(filepath \<mapsto> Partial_text)\<rparr>)
                          | None \<Rightarrow>
                              (Inr (),
                               w2\<lparr>files := (files w2)(filepath \<mapsto> Csv_text (fieldnames # rows)),
                                  log := log w2 @ [Info_exported_csv filepath]\<rparr>))))))"

section \<open>Sessions\<close>

text \<open>
  A session is a sequence of calls to the methods of one tool, each with what the
  environment answers to it. The menu loop produces such sequences (a lookup followed by
  the display of its result, or an export whose exception the loop reports).
\<close>

datatype 'd call =
    Whois_async "exn option" string "'d whois_reply"
  | Whois_sync string "'d whois_reply"
  | Display "'d whois_result option"
  | Export_json io_faults path
  | Export_csv io_faults path

fun perform :: "'d py_text \<Rightarrow> 'd call \<Rightarrow> 'd world \<Rightarrow> 'd world" where
  "perform fmt (Whois_async x d reply) w = snd (perform_whois_async x d reply w)"
| "perform fmt (Whois_sync d reply) w = snd (perform_whois_sync d reply w)"
| "perform fmt (Display result) w = display_result fmt result w"
| "perform fmt (Export_json io p) w = snd (export_to_json fmt io p w)"
| "perform fmt (Export_csv io p) w = snd (export_to_csv fmt io p w)"

fun session :: "'d py_text \<Rightarrow> 'd call list \<Rightarrow> 'd world \<Rightarrow> 'd world" where
  "session fmt [] w = w"
| "session fmt (c # cs) w = session fmt cs (perform fmt c w)"

text \<open>
  The calls of \<^verbatim>\<open>_perform_whois_sync\<close> that a call makes, and the record each of them
  constructs when it runs the body.
\<close>

fun sync_requests :: "'d call \<Rightarrow> (string \<times> 'd whois_reply) list" where
  "sync_requests (Whois_async None d reply) = [(d, reply)]"
| "sync_requests (Whois_async (Some e) d reply) = []"
| "sync_requests (Whois_sync d reply) = [(d, reply)]"
| "sync_requests (Display result) = []"
| "sync_requests (Export_json io p) = []"
| "sync_requests (Export_csv io p) = []"

fun constructed :: "string \<times> 'd whois_reply \<Rightarrow> 'd whois_result list" where
  "constructed (d, Answers data) = [make_result d data]"
| "constructed (d, Fails e) = []"

definition requests :: "'d call list \<Rightarrow> (string \<times> 'd whois_reply) list" where
  "requests cs = concat (map sync_requests cs)"

text \<open>
  The lookups of a session that returned a record, in call order, each with the domain
  string it was called with and the record it returned.
\<close>

fun returned_record :: "'d call \<Rightarrow> 'd world \<Rightarrow> (string \<times> 'd whois_result) list" where
  "returned_record (Whois_async x d reply) w =
     (case fst (perform_whois_async x d reply w) of None \<Rightarrow> [] | Some r \<Rightarrow> [(d, r)])"
| "returned_record (Whois_sync d reply) w =
     (case fst (perform_whois_sync d reply w) of None \<Rightarrow> [] | Some r \<Rightarrow> [(d, r)])"
| "returned_record (Display result) w = []"
| "returned_record (Export_json io p) w = []"
| "returned_record (Export_csv io p) w = []"

fun successful_lookups ::
  "'d py_text \<Rightarrow> 'd call list \<Rightarrow> 'd world \<Rightarrow> (string \<times> 'd whois_result) list" where
  "successful_lookups fmt [] w = []"
| "successful_lookups fmt (c # cs) w =
     returned_record c w @ successful_lookups fmt cs (perform fmt c w)"

text \<open>
  The domain string a call looks up, if it is a lookup, and the lookups of a session that
  were not answered from the memo table and returned a record (they ran the body of
  \<^verbatim>\<open>_perform_whois_sync\<close>), in call order, each with its domain string and its record.
\<close>

fun looked_up :: "'d call \<Rightarrow> string option" where
  "looked_up (Whois_async x d reply) = Some d"
| "looked_up (Whois_sync d reply) = Some d"
| "looked_up (Display result) = None"
| "looked_up (Export_json io p) = None"
| "looked_up (Export_csv io p) = None"

definition uncached_record :: "'d call \<Rightarrow> 'd world \<Rightarrow> (string \<times> 'd whois_result) list" where
  "uncached_record c w =
     (case looked_up c of
        None \<Rightarrow> []
      | Some d \<Rightarrow> if map_of (lru w) d = None then returned_record c w else [])"

fun uncached_successes ::
  "'d py_text \<Rightarrow> 'd call list \<Rightarrow> 'd world \<Rightarrow> (string \<times> 'd whois_result) list" where
  "uncached_successes fmt [] w = []"
| "uncached_successes fmt (c # cs) w =
     uncached_record c w @ uncached_successes fmt cs (perform fmt c w)"

section \<open>Auxiliary notions\<close>

text \<open>
  The first of the three file-system requests that fails, in the order both exports make
  them: directory, open, write.
\<close>

definition first_fault :: "io_faults \<Rightarrow> string option" where
  "first_fault io =
     (case mkdir_fault io of
        Some m \<Rightarrow> Some m
      | None \<Rightarrow> (case open_fault io of Some m \<Rightarrow> Some m | None \<Rightarrow> write_fault io))"

definition no_faults :: io_faults where
  "no_faults = \<lparr>mkdir_fault = None, open_fault = None, write_fault = None\<rparr>"

text \<open>
  A memo table is sound when every record it holds was made for the key it is stored under.
\<close>

definition cache_sound :: "(string \<times> 'd whois_result option) list \<Rightarrow> bool" where
  "cache_sound c = list_all (\<lambda>(k, v). case v of None \<Rightarrow> True | Some r \<Rightarrow> domain r = k) c"

text \<open>
  The keys that a memo table binds to a record (and not to \<^verbatim>\<open>None\<close>).
\<close>

definition cached_records :: "('k \<times> 'v option) list \<Rightarrow> 'k set" where
  "cached_records c = {d. \<exists>r. map_of c d = Some (Some r)}"

text \<open>
  The keys used more recently than \<open>D\<close>, and the invariant that keeps the entry of \<open>D\<close> in
  the table: the keys are distinct, \<open>D\<close> is bound to \<open>r\<close>, and every key ahead of \<open>D\<close>
  belongs to the set \<open>A\<close> of keys requested since \<open>D\<close> was last used.
\<close>

definition ahead :: "'k \<Rightarrow> ('k \<times> 'v) list \<Rightarrow> 'k list" where
  "ahead D c = takeWhile (\<lambda>k. k \<noteq> D) (map fst c)"

definition held :: "'k \<Rightarrow> 'v \<Rightarrow> 'k set \<Rightarrow> ('k \<times> 'v) list \<Rightarrow> bool" where
  "held D r A c = (distinct (map fst c) \<and> map_of c D = Some r \<and> set (ahead D c) \<subseteq> A)"

subsection \<open>Concrete inputs\<close>

text \<open>
  A stand-in for Python's text of dates (here numbered) and its \<^verbatim>\<open>repr\<close> of strings, an
  answer of the collaborator with single, multiple, empty and missing values, a failure
  of the collaborator, a target path, a fresh tool, the world after one successful lookup
  in it, a session that mixes lookups of three domains with a display, an export and a
  lookup the thread pool refuses, a session that looks a domain up again after the
  collaborator failed on it, and a session that looks a domain up again after the
  collaborator answered.
\<close>

definition ex_text :: "nat py_text" where
  "ex_text = \<lparr>str_datetime = (\<lambda>d. ''date''), repr_datetime = (\<lambda>d. ''datetime''),
              repr_str = (\<lambda>s. [CHR 0x27] @ s @ [CHR 0x27])\<rparr>"

definition ex_entry :: "nat whois_entry" where
  "ex_entry =
     \<lparr>entry_registrar = Some ''IANA'', entry_whois_server = None,
      entry_creation_date = Some (One 0), entry_expiration_date = None,
      entry_updated_date = Some (Many [1, 2]), entry_status = Some (Many [''active'']),
      entry_name_servers = None, entry_emails = Some (One [])\<rparr>"

definition ex_timeout :: exn where
  "ex_timeout = OtherError ''TimeoutError'' ''timed out''"

definition ex_path :: path where
  "ex_path = [''out'', ''results'']"

definition ex_start :: "nat world" where
  "ex_start = init {} Map.empty"

definition ex_world :: "nat world" where
  "ex_world = snd (perform_whois_sync ''example.com'' (Answers ex_entry) ex_start)"

definition ex_calls :: "nat call list" where
  "ex_calls =
     [Whois_async None ''example.com'' (Answers ex_entry),
      Display (Some (make_result ''example.com'' ex_entry)),
      Whois_sync ''example.org'' (Fails ex_timeout),
      Export_json no_faults ex_path,
      Whois_async (Some (OtherError ''RuntimeError'' ''shutdown'')) ''example.com''
        (Answers ex_entry),
      Whois_async None ''example.net'' (Answers ex_entry)]"

definition ex_retries :: "nat call list" where
  "ex_retries =
     [Whois_async None ''example.org'' (Fails ex_timeout),
      Whois_async None ''example.org'' (Answers ex_entry),
      Whois_async None ''example.com'' (Answers ex_entry),
      Display (Some (make_result ''example.com'' ex_entry)),
      Whois_sync ''example.net'' (Answers ex_entry)]"

definition ex_repeats :: "nat call list" where
  "ex_repeats =
     [Whois_async None ''example.com'' (Answers ex_entry),
      Whois_async None ''example.org'' (Answers ex_entry),
      Whois_async None ''example.com'' (Answers ex_entry),
      Whois_sync ''example.net'' (Answers ex_entry)]"

section \<open>Properties of the lookup\<close>

lemma body_lru [simp]: "lru (snd (whois_sync_body d reply w)) = lru w"
  by (simp add: whois_sync_body_def Let_def split: whois_reply.splits)

lemma body_fst:
  "fst (whois_sync_body d reply w) =
     (case reply of Answers data \<Rightarrow> Some (make_result d data) | Fails e \<Rightarrow> None)"
  by (simp add: whois_sync_body_def Let_def split: whois_reply.splits)

lemma body_results:
  "results (snd (whois_sync_body d reply w)) = results w @ constructed (d, reply)"
  by (cases reply) (simp_all add: whois_sync_body_def Let_def)

lemma domain_make_result [simp]: "domain (make_result d data) = d"
  by (simp add: make_result_def)

lemma sync_hit:
  "map_of (lru w) d = Some v \<Longrightarrow>
     perform_whois_sync d reply w = (v, w\<lparr>lru := cache_hit d v (lru w)\<rparr>)"
  by (simp add: perform_whois_sync_def)

lemma sync_miss:
  "map_of (lru w) d = None \<Longrightarrow>
     perform_whois_sync d reply w =
       (fst (whois_sync_body d reply w),
        (snd (whois_sync_body d reply w))
          \<lparr>lru := cache_store d (fst (whois_sync_body d reply w)) (lru w)\<rparr>)"
  using body_lru [of d reply w]
  by (cases "whois_sync_body d reply w") (simp add: perform_whois_sync_def)

lemma cache_sound_hit:
  "cache_sound c \<Longrightarrow> map_of c d = Some v \<Longrightarrow> cache_sound (cache_hit d v c)"
  by (auto simp: cache_sound_def cache_hit_def list_all_iff dest!: map_of_SomeD
      split: option.splits)

lemma cache_sound_store:
  "cache_sound c \<Longrightarrow> (case v of None \<Rightarrow> True | Some r \<Rightarrow> domain r = d) \<Longrightarrow>
     cache_sound (cache_store d v c)"
  by (auto simp: cache_sound_def cache_store_def list_all_iff dest: in_set_butlastD
      split: option.splits)

lemma sync_sound:
  assumes "cache_sound (lru w)"
  shows "cache_sound (lru (snd (perform_whois_sync d reply w))) \<and>
         (fst (perform_whois_sync d reply w) = None \<or>
          (\<exists>r. fst (perform_whois_sync d reply w) = Some r \<and> domain r = d))"
proof (cases "map_of (lru w) d")
  case None
  then show ?thesis
    using assms by (cases reply) (simp_all add: sync_miss body_fst cache_sound_store)
next
  case (Some v)
  then have "(d, v) \<in> set (lru w)" by (rule map_of_SomeD)
  with assms have "case v of None \<Rightarrow> True | Some r \<Rightarrow> domain r = d"
    by (auto simp: cache_sound_def list_all_iff)
  with Some assms show ?thesis
    by (cases v) (simp_all add: sync_hit cache_sound_hit)
qed

text \<open>
  Only a call that reaches \<^verbatim>\<open>_perform_whois_sync\<close> touches the memo table.
\<close>

lemma perform_lru:
  "lru (perform fmt c w) =
     (case sync_requests c of [] \<Rightarrow> lru w
      | q # _ \<Rightarrow> lru (snd (perform_whois_sync (fst q) (snd q) w)))"
proof (cases c)
  case (Whois_async x d reply)
  then show ?thesis by (cases x) (simp_all add: perform_whois_async_def)
next
  case (Whois_sync d reply)
  then show ?thesis by simp
next
  case (Display result)
  then show ?thesis by (simp add: display_result_def)
next
  case (Export_json io p)
  then show ?thesis
    by (simp add: export_to_json_def json_failed_def Let_def split: option.splits)
next
  case (Export_csv io p)
  then show ?thesis
    by (simp add: export_to_csv_def csv_failed_def Let_def
        split: option.splits list.splits sum.splits)
qed

lemma perform_sound: "cache_sound (lru w) \<Longrightarrow> cache_sound (lru (perform fmt c w))"
  using sync_sound [of w]
  by (cases "sync_requests c") (simp_all add: perform_lru)

lemma session_sound: "cache_sound (lru w) \<Longrightarrow> cache_sound (lru (session fmt cs w))"
  by (induction cs arbitrary: w) (simp_all add: perform_sound)

lemma init_sound: "cache_sound (lru (init ds fs))"
  by (simp add: init_def cache_sound_def)

text \<open>
  Claim C1. In the world reached by any session of a fresh tool, and for every domain
  string \<open>D\<close> and every answer of the environment (the collaborator answers or raises, the
  thread pool accepts the job or raises), \<^verbatim>\<open>_perform_whois_sync\<close> and
  \<^verbatim>\<open>perform_whois_async\<close> return either \<^verbatim>\<open>None\<close> or a record whose \<open>domain\<close> is \<open>D\<close>. Both are
  total functions into \<open>option\<close>: every exception raised inside their \<^verbatim>\<open>try\<close> blocks is a
  branch that returns \<^verbatim>\<open>None\<close>.
\<close>

theorem lookup_record_or_none:
  "(fst (perform_whois_sync D reply (session fmt cs (init ds fs))) = None \<or>
    (\<exists>r. fst (perform_whois_sync D reply (session fmt cs (init ds fs))) = Some r \<and>
         domain r = D)) \<and>
   (fst (perform_whois_async x D reply (session fmt cs (init ds fs))) = None \<or>
    (\<exists>r. fst (perform_whois_async x D reply (session fmt cs (init ds fs))) = Some r \<and>
         domain r = D))"
proof -
  have "cache_sound (lru (session fmt cs (init ds fs)))"
    by (rule session_sound) (rule init_sound)
  from sync_sound [OF this, of D reply] show ?thesis
    by (cases x) (simp_all add: perform_whois_async_def)
qed

section \<open>Properties of the memo table\<close>

lemma map_of_None_keys: "(map_of c k = None) = (k \<notin> fst ` set c)"
  by (simp add: map_of_eq_None_iff)

lemma map_of_filter_other:
  "D \<noteq> k \<Longrightarrow> map_of (filter (\<lambda>e. fst e \<noteq> k) c) D = map_of c D"
  by (induction c) auto

text \<open>
  A lookup appends a record exactly when it misses the table and the collaborator answers.
\<close>

lemma sync_results_miss:
  "d \<notin> fst ` set (lru w) \<Longrightarrow>
     results (snd (perform_whois_sync d reply w)) = results w @ constructed (d, reply)"
  by (simp add: sync_miss map_of_None_keys body_results)

lemma sync_results_hit:
  assumes "d \<in> fst ` set (lru w)"
  shows "results (snd (perform_whois_sync d reply w)) = results w"
proof -
  obtain v where "map_of (lru w) d = Some v"
    using assms map_of_None_keys [of "lru w" d] by (cases "map_of (lru w) d") auto
  then show ?thesis by (simp add: sync_hit)
qed

lemma perform_results:
  "results (perform fmt c w) =
     (case sync_requests c of [] \<Rightarrow> results w
      | q # _ \<Rightarrow> results (snd (perform_whois_sync (fst q) (snd q) w)))"
proof (cases c)
  case (Whois_async x d reply)
  then show ?thesis by (cases x) (simp_all add: perform_whois_async_def)
next
  case (Whois_sync d reply)
  then show ?thesis by simp
next
  case (Display result)
  then show ?thesis by (simp add: display_result_def)
next
  case (Export_json io p)
  then show ?thesis
    by (simp add: export_to_json_def json_failed_def Let_def split: option.splits)
next
  case (Export_csv io p)
  then show ?thesis
    by (simp add: export_to_csv_def csv_failed_def Let_def
        split: option.splits list.splits sum.splits)
qed

lemma sync_requests_short: "sync_requests c = [] \<or> (\<exists>q. sync_requests c = [q])"
  by (cases c rule: sync_requests.cases) simp_all

lemma requests_Nil [simp]: "requests [] = []"
  by (simp add: requests_def)

lemma requests_Cons [simp]: "requests (c # cs) = sync_requests c @ requests cs"
  by (simp add: requests_def)

lemma returned_record_none: "sync_requests c = [] \<Longrightarrow> returned_record c w = []"
  by (cases c rule: sync_requests.cases) (simp_all add: perform_whois_async_def)

lemma returned_record_request:
  "sync_requests c = (d, reply) # qs \<Longrightarrow>
     returned_record c w =
       (case fst (perform_whois_sync d reply w) of None \<Rightarrow> [] | Some r \<Rightarrow> [(d, r)])"
  by (cases c rule: sync_requests.cases) (simp_all add: perform_whois_async_def)

lemma map_of_butlast_Some: "map_of (butlast c) k = Some x \<Longrightarrow> map_of c k = Some x"
  by (induction c) (auto split: if_splits)

lemma cached_records_hit:
  "map_of c d = Some v \<Longrightarrow> cached_records (cache_hit d v c) = cached_records c"
  by (auto simp: cached_records_def cache_hit_def map_of_filter_other)

lemma cached_records_store:
  "cached_records (cache_store d v c) \<subseteq>
     cached_records c \<union> (case v of None \<Rightarrow> {} | Some r \<Rightarrow> {d})"
  by (auto simp: cached_records_def cache_store_def dest: map_of_butlast_Some
      split: if_splits option.splits)

lemma sync_cached_hit:
  assumes "d \<in> cached_records (lru w)"
  shows "fst (perform_whois_sync d reply w) \<noteq> None \<and>
         results (snd (perform_whois_sync d reply w)) = results w"
proof -
  from assms obtain r where "map_of (lru w) d = Some (Some r)"
    by (auto simp: cached_records_def)
  then show ?thesis by (simp add: sync_hit)
qed

lemma sync_not_cached:
  assumes "d \<notin> cached_records (lru w)"
  shows "results (snd (perform_whois_sync d reply w)) =
           results w @ (case fst (perform_whois_sync d reply w) of None \<Rightarrow> [] | Some r \<Rightarrow> [r])"
proof (cases "map_of (lru w) d")
  case None
  then show ?thesis
    by (cases reply) (simp_all add: sync_miss body_fst body_results)
next
  case (Some v)
  with assms have "v = None" by (cases v) (auto simp: cached_records_def)
  with Some show ?thesis by (simp add: sync_hit)
qed

lemma sync_cached_records:
  "cached_records (lru (snd (perform_whois_sync d reply w))) \<subseteq>
     cached_records (lru w) \<union>
     (case fst (perform_whois_sync d reply w) of None \<Rightarrow> {} | Some r \<Rightarrow> {d})"
proof (cases "map_of (lru w) d")
  case None
  then show ?thesis
    using cached_records_store [of d "fst (whois_sync_body d reply w)" "lru w"]
    by (simp add: sync_miss)
next
  case (Some v)
  then show ?thesis by (simp add: sync_hit cached_records_hit)
qed

lemma session_results_successful:
  assumes "distinct (map fst (successful_lookups fmt cs w))"
    and "cached_records (lru w) \<inter> fst ` set (successful_lookups fmt cs w) = {}"
  shows "results (session fmt cs w) = results w @ map snd (successful_lookups fmt cs w)"
  using assms
proof (induction cs arbitrary: w)
  case Nil
  then show ?case by simp
next
  case (Cons c cs)
  let ?w' = "perform fmt c w"
  let ?rest = "successful_lookups fmt cs ?w'"
  from Cons.prems(1) have later: "distinct (map fst ?rest)" by simp
  from Cons.prems(2) have apart: "cached_records (lru w) \<inter> fst ` set ?rest = {}"
    by (simp add: image_Un Int_Un_distrib)
  show ?case
  proof (cases "sync_requests c")
    case Nil
    then have same: "lru ?w' = lru w" "results ?w' = results w" "returned_record c w = []"
      by (simp_all add: perform_lru perform_results returned_record_none)
    from Cons.IH [OF later] apart same show ?thesis by simp
  next
    case (Cons q qs)
    obtain d reply where q: "q = (d, reply)" by (cases q)
    let ?v = "fst (perform_whois_sync d reply w)"
    have w': "lru ?w' = lru (snd (perform_whois_sync d reply w))"
      "results ?w' = results (snd (perform_whois_sync d reply w))"
      using Cons q by (simp_all add: perform_lru perform_results)
    have ret: "returned_record c w = (case ?v of None \<Rightarrow> [] | Some r \<Rightarrow> [(d, r)])"
      using Cons q by (simp add: returned_record_request)
    have fresh: "d \<notin> cached_records (lru w)"
    proof
      assume in_cache: "d \<in> cached_records (lru w)"
      then have "?v \<noteq> None" using sync_cached_hit [of d w reply] by simp
      then have "d \<in> fst ` set (successful_lookups fmt (c # cs) w)"
        using ret by (auto split: option.splits)
      with in_cache Cons.prems(2) show False by blast
    qed
    have grown: "cached_records (lru ?w') \<inter> fst ` set ?rest = {}"
    proof (cases ?v)
      case None
      then show ?thesis
        using sync_cached_records [of d reply w] apart w' by auto
    next
      case (Some r)
      then have "d \<notin> fst ` set ?rest"
        using Cons.prems(1) ret by (auto simp: image_iff)
      then show ?thesis
        using sync_cached_records [of d reply w] apart w' Some by auto
    qed
    from Cons.IH [OF later grown] sync_not_cached [OF fresh, of reply] w' ret
    show ?thesis by (simp split: option.splits)
  qed
qed

lemma ex_calls_requests:
  "requests ex_calls =
     [(''example.com'', Answers ex_entry), (''example.org'', Fails ex_timeout),
      (''example.net'', Answers ex_entry)]"
  by (simp add: ex_calls_def)

lemma ex_first_lookup:
  "perform_whois_sync ''example.com'' (Answers ex_entry) ex_start =
     (Some (make_result ''example.com'' ex_entry), ex_world)"
  by (simp add: ex_world_def ex_start_def init_def sync_miss body_fst prod_eq_iff)

text \<open>
  Claim C2, as stated, fails: two lookups of the same domain string in a fresh tool both
  return the record, and the store holds one record, not two. The second call is
  answered from the memo table and never reaches the \<^verbatim>\<open>append\<close>.
\<close>

theorem repeated_lookup_stored_once:
  "fst (perform_whois_async None ''example.com'' (Answers ex_entry) ex_start) =
     Some (make_result ''example.com'' ex_entry) \<and>
   snd (perform_whois_async None ''example.com'' (Answers ex_entry) ex_start) = ex_world \<and>
   fst (perform_whois_async None ''example.com'' (Answers ex_entry) ex_world) =
     Some (make_result ''example.com'' ex_entry) \<and>
   results (snd (perform_whois_async None ''example.com'' (Answers ex_entry) ex_world)) =
     [make_result ''example.com'' ex_entry] \<and>
   length (results (snd (perform_whois_async None ''example.com'' (Answers ex_entry) ex_world)))
     \<noteq> 2"
proof -
  have hit: "map_of (lru ex_world) ''example.com'' = Some (Some (make_result ''example.com'' ex_entry))"
    by (simp add: ex_world_def ex_start_def init_def sync_miss body_fst cache_store_def)
  have "results ex_world = [make_result ''example.com'' ex_entry]"
    by (simp add: ex_world_def ex_start_def init_def sync_miss body_results)
  then show ?thesis
    using hit by (simp add: perform_whois_async_def ex_first_lookup sync_hit)
qed

lemma uncached_record_none: "sync_requests c = [] \<Longrightarrow> uncached_record c w = []"
  by (cases c rule: sync_requests.cases)
     (simp_all add: uncached_record_def perform_whois_async_def)

lemma uncached_record_request:
  "sync_requests c = (d, reply) # qs \<Longrightarrow>
     uncached_record c w =
       (if map_of (lru w) d = None
        then (case fst (perform_whois_sync d reply w) of None \<Rightarrow> [] | Some r \<Rightarrow> [(d, r)])
        else [])"
  by (cases c rule: sync_requests.cases)
     (simp_all add: uncached_record_def perform_whois_async_def)

lemma perform_results_uncached:
  "results (perform fmt c w) = results w @ map snd (uncached_record c w)"
proof (cases "sync_requests c")
  case Nil
  then show ?thesis by (simp add: perform_results uncached_record_none)
next
  case (Cons q qs)
  obtain d reply where q: "q = (d, reply)" by (cases q)
  show ?thesis
  proof (cases "map_of (lru w) d")
    case None
    then show ?thesis
      using Cons q
      by (cases reply)
         (simp_all add: perform_results uncached_record_request sync_miss body_fst body_results)
  next
    case (Some v)
    then show ?thesis
      using Cons q by (simp add: perform_results uncached_record_request sync_hit)
  qed
qed

lemma session_results_uncached:
  "results (session fmt cs w) = results w @ map snd (uncached_successes fmt cs w)"
  by (induction cs arbitrary: w) (simp_all add: perform_results_uncached)

lemma ex_world_lru:
  "lru ex_world = [(''example.com'', Some (make_result ''example.com'' ex_entry))]"
  by (simp add: ex_world_def ex_start_def init_def sync_miss body_fst cache_store_def)

text \<open>
  Claim C2, amended. After any sequence of calls of a fresh tool, repeated domain strings
  included, the store holds exactly the records returned by the successful lookups that
  were not answered from the memo table, one each, in call order; when the successful
  lookups were called with pairwise distinct domain strings, these are all of them, so N
  successful lookups leave N records. A lookup of a domain string that the table holds
  returns what the table holds and appends nothing.
\<close>

theorem store_holds_uncached_successes:
  "results (session fmt cs (init ds fs)) = map snd (uncached_successes fmt cs (init ds fs)) \<and>
   length (results (session fmt cs (init ds fs))) =
     length (uncached_successes fmt cs (init ds fs)) \<and>
   (distinct (map fst (successful_lookups fmt cs (init ds fs))) \<longrightarrow>
      results (session fmt cs (init ds fs)) = map snd (successful_lookups fmt cs (init ds fs)) \<and>
      length (results (session fmt cs (init ds fs))) =
        length (successful_lookups fmt cs (init ds fs))) \<and>
   (\<forall>cached. map_of (lru w) d = Some cached \<longrightarrow>
      fst (perform_whois_sync d reply w) = cached \<and>
      fst (perform_whois_async None d reply w) = cached \<and>
      results (snd (perform_whois_sync d reply w)) = results w \<and>
      results (snd (perform_whois_async None d reply w)) = results w)"
proof (intro conjI impI allI)
  have start: "results (init ds fs) = []"
    by (simp add: init_def)
  show all: "results (session fmt cs (init ds fs)) =
      map snd (uncached_successes fmt cs (init ds fs))"
    using session_results_uncached [of fmt cs "init ds fs"] start by simp
  then show "length (results (session fmt cs (init ds fs))) =
      length (uncached_successes fmt cs (init ds fs))"
    by simp
  {
    assume d: "distinct (map fst (successful_lookups fmt cs (init ds fs)))"
    have none: "cached_records (lru (init ds fs)) \<inter>
        fst ` set (successful_lookups fmt cs (init ds fs)) = {}"
      by (simp add: init_def cached_records_def)
    from session_results_successful [OF d none] start
    show "results (session fmt cs (init ds fs)) =
        map snd (successful_lookups fmt cs (init ds fs))"
      by simp
    then show "length (results (session fmt cs (init ds fs))) =
        length (successful_lookups fmt cs (init ds fs))"
      by simp
  }
  fix cached
  assume hit: "map_of (lru w) d = Some cached"
  then show "fst (perform_whois_sync d reply w) = cached"
    and "fst (perform_whois_async None d reply w) = cached"
    and "results (snd (perform_whois_sync d reply w)) = results w"
    and "results (snd (perform_whois_async None d reply w)) = results w"
    by (simp_all add: sync_hit perform_whois_async_def)
qed

theorem store_holds_uncached_successes_witness:
  "uncached_successes ex_text ex_repeats (init {} Map.empty) =
     [(''example.com'', make_result ''example.com'' ex_entry),
      (''example.org'', make_result ''example.org'' ex_entry),
      (''example.net'', make_result ''example.net'' ex_entry)] \<and>
   length (successful_lookups ex_text ex_repeats (init {} Map.empty)) = 4 \<and>
   results (session ex_text ex_repeats (init {} Map.empty)) =
     [make_result ''example.com'' ex_entry, make_result ''example.org'' ex_entry,
      make_result ''example.net'' ex_entry] \<and>
   distinct (map fst (successful_lookups ex_text ex_retries (init {} Map.empty))) \<and>
   results (session ex_text ex_retries (init {} Map.empty)) =
     [make_result ''example.com'' ex_entry, make_result ''example.net'' ex_entry] \<and>
   map_of (lru ex_world) ''example.com'' = Some (Some (make_result ''example.com'' ex_entry)) \<and>
   fst (perform_whois_sync ''example.com'' (Fails ex_timeout) ex_world) =
     Some (make_result ''example.com'' ex_entry) \<and>
   results (snd (perform_whois_sync ''example.com'' (Fails ex_timeout) ex_world)) =
     [make_result ''example.com'' ex_entry]"
proof -
  have u: "uncached_successes ex_text ex_repeats (init {} Map.empty) =
     [(''example.com'', make_result ''example.com'' ex_entry),
      (''example.org'', make_result ''example.org'' ex_entry),
      (''example.net'', make_result ''example.net'' ex_entry)]"
    by (simp add: ex_repeats_def init_def uncached_record_def perform_whois_async_def
        perform_whois_sync_def whois_sync_body_def cache_store_def cache_hit_def maxsize_def
        Let_def)
  have n: "length (successful_lookups ex_text ex_repeats (init {} Map.empty)) = 4"
    by (simp add: ex_repeats_def init_def perform_whois_async_def perform_whois_sync_def
        whois_sync_body_def cache_store_def cache_hit_def maxsize_def Let_def)
  have s: "successful_lookups ex_text ex_retries (init {} Map.empty) =
     [(''example.com'', make_result ''example.com'' ex_entry),
      (''example.net'', make_result ''example.net'' ex_entry)]"
    by (simp add: ex_retries_def init_def perform_whois_async_def perform_whois_sync_def
        whois_sync_body_def cache_store_def cache_hit_def maxsize_def display_result_def
        Let_def)
  then have d: "distinct (map fst (successful_lookups ex_text ex_retries (init {} Map.empty)))"
    by simp
  have hit: "map_of (lru ex_world) ''example.com'' =
      Some (Some (make_result ''example.com'' ex_entry))"
    by (simp add: ex_world_lru)
  have stored: "results ex_world = [make_result ''example.com'' ex_entry]"
    by (simp add: ex_world_def ex_start_def init_def sync_miss body_results)
  note repeats = store_holds_uncached_successes
    [where fmt = ex_text and cs = ex_repeats and ds = "{}" and fs = Map.empty
       and w = ex_world and d = "''example.com''" and reply = "Fails ex_timeout"]
  note retries = store_holds_uncached_successes
    [where fmt = ex_text and cs = ex_retries and ds = "{}" and fs = Map.empty
       and w = ex_world and d = "''example.com''" and reply = "Fails ex_timeout"]
  from repeats have r1: "results (session ex_text ex_repeats (init {} Map.empty)) =
      map snd (uncached_successes ex_text ex_repeats (init {} Map.empty))"
    by (rule conjunct1)
  from retries d have r2: "results (session ex_text ex_retries (init {} Map.empty)) =
      map snd (successful_lookups ex_text ex_retries (init {} Map.empty))"
    by blast
  from repeats hit
  have r3: "fst (perform_whois_sync ''example.com'' (Fails ex_timeout) ex_world) =
        Some (make_result ''example.com'' ex_entry) \<and>
      results (snd (perform_whois_sync ''example.com'' (Fails ex_timeout) ex_world)) =
        results ex_world"
    by blast
  show ?thesis
    using u n s d hit stored r1 r2 r3 by simp
qed

subsection \<open>Retention of an entry\<close>

lemma takeWhile_last:
  "distinct ks \<Longrightarrow> ks \<noteq> [] \<Longrightarrow> last ks = D \<Longrightarrow> takeWhile (\<lambda>k. k \<noteq> D) ks = butlast ks"
  by (induction ks) (auto split: if_splits)

lemma map_of_butlast:
  "c \<noteq> [] \<Longrightarrow> fst (last c) \<noteq> D \<Longrightarrow> map_of (butlast c) D = map_of c D"
  by (induction c) (auto split: if_splits)

lemma takeWhile_butlast: "set (takeWhile P (butlast xs)) \<subseteq> set (takeWhile P xs)"
  by (induction xs) auto

lemma takeWhile_filter:
  "(\<And>x. \<not> P x \<Longrightarrow> Q x) \<Longrightarrow> takeWhile P (filter Q xs) = filter Q (takeWhile P xs)"
  by (induction xs) auto

lemma ahead_not_self: "D \<notin> set (ahead D c)"
  by (auto simp: ahead_def dest: set_takeWhileD)

lemma ahead_keys: "set (ahead D c) \<subseteq> fst ` set c"
  using set_takeWhileD [of _ "\<lambda>k. k \<noteq> D" "map fst c"] by (auto simp: ahead_def)

lemma distinct_ahead: "distinct (map fst c) \<Longrightarrow> distinct (ahead D c)"
  by (simp add: ahead_def)

lemma held_hit_self: "held D r A c \<Longrightarrow> held D r A (cache_hit D r c)"
  by (simp add: held_def cache_hit_def ahead_def distinct_map_filter image_iff)

lemma held_hit_other:
  assumes "held D r A c" and "k \<noteq> D" and "k \<in> A"
  shows "held D r A (cache_hit k v c)"
proof -
  have "map fst (filter (\<lambda>e. fst e \<noteq> k) c) = filter (\<lambda>x. x \<noteq> k) (map fst c)"
    by (simp add: filter_map comp_def)
  moreover have "takeWhile (\<lambda>x. x \<noteq> D) (filter (\<lambda>x. x \<noteq> k) (map fst c)) =
      filter (\<lambda>x. x \<noteq> k) (takeWhile (\<lambda>x. x \<noteq> D) (map fst c))"
    using assms(2) by (intro takeWhile_filter) auto
  ultimately have "ahead D (filter (\<lambda>e. fst e \<noteq> k) c) = filter (\<lambda>x. x \<noteq> k) (ahead D c)"
    by (simp add: ahead_def)
  then have "set (ahead D (cache_hit k v c)) \<subseteq> insert k (set (ahead D c))"
    using assms(2) by (auto simp: cache_hit_def ahead_def)
  then show ?thesis
    using assms
    by (auto simp: held_def cache_hit_def distinct_map_filter map_of_filter_other)
qed

text \<open>
  The step that can drop an entry: a miss on a full table. The entry of \<open>D\<close> is the one
  dropped only if every other entry is ahead of it; those keys and the new one are then
  \<open>maxsize\<close> distinct keys requested since \<open>D\<close> was last used.
\<close>

lemma held_store:
  assumes h: "held D r A c" and k: "k \<notin> fst ` set c" "k \<in> A"
    and A: "finite A" "card (A - {D}) < maxsize"
  shows "held D r A (cache_store k v c)"
proof -
  from h have dist: "distinct (map fst c)" and at: "map_of c D = Some r"
    and ah: "set (ahead D c) \<subseteq> A"
    by (simp_all add: held_def)
  from at have Din: "D \<in> fst ` set c"
    by (metis map_of_eq_None_iff option.distinct(1))
  with k have kD: "k \<noteq> D" by auto
  from Din have ne: "c \<noteq> []" by auto
  show ?thesis
  proof (cases "maxsize \<le> length c")
    case False
    then show ?thesis
      using dist at ah k kD by (auto simp: held_def cache_store_def ahead_def)
  next
    case True
    have notlast: "fst (last c) \<noteq> D"
    proof
      assume "fst (last c) = D"
      then have "last (map fst c) = D" using ne by (simp add: last_map)
      then have "ahead D c = butlast (map fst c)"
        using dist ne by (simp add: ahead_def takeWhile_last)
      then have len: "length (ahead D c) = length c - 1" by simp
      have "distinct (k # ahead D c)"
        using distinct_ahead [OF dist, of D] ahead_keys [of D c] k(1) by auto
      then have "card (set (k # ahead D c)) = length c"
        using len ne by (simp add: distinct_card del: set_simps)
      moreover have "set (k # ahead D c) \<subseteq> A - {D}"
        using ah k(2) kD ahead_not_self [of D c] by auto
      then have "card (set (k # ahead D c)) \<le> card (A - {D})"
        using A(1) by (intro card_mono) auto
      ultimately show False using True A(2) by simp
    qed
    have "set (ahead D (butlast c)) \<subseteq> set (ahead D c)"
      using takeWhile_butlast [of "\<lambda>k. k \<noteq> D" "map fst c"]
      by (simp add: ahead_def map_butlast)
    moreover have "distinct (map fst (butlast c))"
      using dist by (simp add: map_butlast distinct_butlast)
    moreover have "k \<notin> fst ` set (butlast c)"
      using k(1) by (auto dest: in_set_butlastD)
    ultimately show ?thesis
      using True at ah k kD map_of_butlast [OF ne notlast]
      by (auto simp: held_def cache_store_def ahead_def)
  qed
qed

lemma sync_held:
  assumes h: "held D r A (lru w)" and d: "d \<in> A"
    and A: "finite A" "card (A - {D}) < maxsize"
  shows "held D r A (lru (snd (perform_whois_sync d reply w)))"
proof (cases "map_of (lru w) d")
  case None
  then have "d \<notin> fst ` set (lru w)" by (simp add: map_of_None_keys)
  from held_store [OF h this d A] None show ?thesis by (simp add: sync_miss)
next
  case (Some v)
  show ?thesis
  proof (cases "d = D")
    case True
    with Some h have "v = r" by (simp add: held_def)
    with True Some held_hit_self [OF h] show ?thesis by (simp add: sync_hit)
  next
    case False
    from held_hit_other [OF h False d] Some show ?thesis by (simp add: sync_hit)
  qed
qed

lemma perform_held:
  assumes "held D r A (lru w)" and "fst ` set (sync_requests c) \<subseteq> A"
    and "finite A" "card (A - {D}) < maxsize"
  shows "held D r A (lru (perform fmt c w))"
proof (cases "sync_requests c")
  case Nil
  with assms(1) show ?thesis by (simp add: perform_lru)
next
  case (Cons q qs)
  with assms(2) have "fst q \<in> A" by simp
  from sync_held [OF assms(1) this assms(3,4)] Cons show ?thesis
    by (simp add: perform_lru)
qed

lemma session_held:
  assumes "held D r A (lru w)" and "fst ` set (requests cs) \<subseteq> A"
    and "finite A" "card (A - {D}) < maxsize"
  shows "held D r A (lru (session fmt cs w))"
  using assms(1,2)
proof (induction cs arbitrary: w)
  case Nil
  then show ?case by simp
next
  case (Cons c cs)
  from Cons.prems(2) have here: "fst ` set (sync_requests c) \<subseteq> A"
    and rest: "fst ` set (requests cs) \<subseteq> A"
    by (simp_all add: image_Un)
  from perform_held [OF Cons.prems(1) here assms(3,4)]
  have "held D r A (lru (perform fmt c w))" .
  from Cons.IH [OF this rest] show ?case by simp
qed

text \<open>
  The keys of the memo table of a tool are distinct, and right after a lookup of \<open>D\<close> its
  entry is at the front, bound to what the lookup returned.
\<close>

lemma sync_distinct:
  assumes "distinct (map fst (lru w))"
  shows "distinct (map fst (lru (snd (perform_whois_sync d reply w))))"
proof (cases "map_of (lru w) d")
  case None
  then have "d \<notin> fst ` set (lru w)" by (simp add: map_of_None_keys)
  then show ?thesis
    using assms None
    by (auto simp: sync_miss cache_store_def map_butlast distinct_butlast dest: in_set_butlastD)
next
  case (Some v)
  then show ?thesis
    using assms by (simp add: sync_hit cache_hit_def distinct_map_filter image_iff)
qed

lemma perform_distinct:
  "distinct (map fst (lru w)) \<Longrightarrow> distinct (map fst (lru (perform fmt c w)))"
  by (cases "sync_requests c") (simp_all add: perform_lru sync_distinct)

lemma session_distinct:
  "distinct (map fst (lru w)) \<Longrightarrow> distinct (map fst (lru (session fmt cs w)))"
  by (induction cs arbitrary: w) (simp_all add: perform_distinct)

lemma sync_held_after:
  assumes "distinct (map fst (lru w))"
  shows "held D (fst (perform_whois_sync D reply w)) A (lru (snd (perform_whois_sync D reply w)))"
proof (cases "map_of (lru w) D")
  case None
  then have "D \<notin> fst ` set (lru w)" by (simp add: map_of_None_keys)
  then show ?thesis
    using assms None
    by (auto simp: held_def ahead_def sync_miss cache_store_def map_butlast distinct_butlast
        dest: in_set_butlastD)
next
  case (Some v)
  then show ?thesis
    using assms
    by (simp add: held_def ahead_def sync_hit cache_hit_def distinct_map_filter image_iff)
qed

text \<open>
  Claim C4. Take any lookup of a domain string \<open>D\<close> by a tool, returning \<open>r\<close> (a record, or
  \<^verbatim>\<open>None\<close> when it failed), and any calls after it in which fewer than 128 distinct domain
  strings other than \<open>D\<close> reach \<^verbatim>\<open>_perform_whois_sync\<close>. Then the next lookup of \<open>D\<close> returns
  \<open>r\<close> again, whatever the collaborator would answer now, and neither invokes the
  collaborator nor touches the store.
\<close>

theorem repeated_lookup_served_from_cache:
  assumes first: "perform_whois_sync D reply (session fmt cs0 (init ds fs)) = (r, w1)"
    and bound: "card (fst ` set (requests cs) - {D}) < maxsize"
  shows "fst (perform_whois_sync D reply' (session fmt cs w1)) = r \<and>
         fst (perform_whois_async None D reply' (session fmt cs w1)) = r \<and>
         whois_calls (snd (perform_whois_sync D reply' (session fmt cs w1))) =
           whois_calls (session fmt cs w1) \<and>
         results (snd (perform_whois_sync D reply' (session fmt cs w1))) =
           results (session fmt cs w1)"
proof -
  let ?A = "insert D (fst ` set (requests cs))"
  have "distinct (map fst (lru (session fmt cs0 (init ds fs))))"
    by (rule session_distinct) (simp add: init_def)
  from sync_held_after [OF this, of D reply ?A] first
  have start: "held D r ?A (lru w1)" by simp
  have "card (?A - {D}) < maxsize" using bound by simp
  from session_held [OF start _ _ this, of cs fmt]
  have "held D r ?A (lru (session fmt cs w1))" by auto
  then have "map_of (lru (session fmt cs w1)) D = Some r" by (simp add: held_def)
  then show ?thesis by (simp add: sync_hit perform_whois_async_def)
qed

theorem repeated_lookup_served_from_cache_witness:
  "perform_whois_sync ''example.com'' (Answers ex_entry) (session ex_text [] (init {} Map.empty)) =
     (Some (make_result ''example.com'' ex_entry), ex_world) \<and>
   card (fst ` set (requests ex_calls) - {''example.com''}) < maxsize \<and>
   fst (perform_whois_sync ''example.com'' (Fails ex_timeout) (session ex_text ex_calls ex_world)) =
     Some (make_result ''example.com'' ex_entry) \<and>
   whois_calls (snd (perform_whois_sync ''example.com'' (Fails ex_timeout)
                       (session ex_text ex_calls ex_world))) =
     whois_calls (session ex_text ex_calls ex_world)"
proof -
  have first: "perform_whois_sync ''example.com'' (Answers ex_entry)
      (session ex_text [] (init {} Map.empty)) =
      (Some (make_result ''example.com'' ex_entry), ex_world)"
    using ex_first_lookup by (simp add: ex_start_def)
  have bound: "card (fst ` set (requests ex_calls) - {''example.com''}) < maxsize"
    by (simp add: ex_calls_requests maxsize_def)
  show ?thesis
    using first bound
      repeated_lookup_served_from_cache [OF first bound, of "Fails ex_timeout"]
    by simp
qed

subsection \<open>Stored records\<close>

lemma perform_prefix: "prefix (results w) (results (perform fmt c w))"
proof (cases "sync_requests c")
  case Nil
  then show ?thesis by (simp add: perform_results)
next
  case (Cons q qs)
  show ?thesis
  proof (cases "fst q \<in> fst ` set (lru w)")
    case True
    then show ?thesis using Cons by (simp add: perform_results sync_results_hit)
  next
    case False
    then show ?thesis using Cons by (simp add: perform_results sync_results_miss)
  qed
qed

lemma session_prefix: "prefix (results w) (results (session fmt cs w))"
proof (induction cs arbitrary: w)
  case Nil
  then show ?case by simp
next
  case (Cons c cs)
  have "prefix (results w) (results (perform fmt c w))" by (rule perform_prefix)
  also have "prefix (results (perform fmt c w)) (results (session fmt cs (perform fmt c w)))"
    by (rule Cons.IH)
  finally show ?case by simp
qed

lemma perform_results_subset:
  "set (results (perform fmt c w)) \<subseteq>
     set (results w) \<union> set (concat (map constructed (sync_requests c)))"
proof -
  from sync_requests_short [of c] show ?thesis
  proof
    assume "sync_requests c = []"
    then show ?thesis by (simp add: perform_results)
  next
    assume "\<exists>q. sync_requests c = [q]"
    then obtain d reply where q: "sync_requests c = [(d, reply)]" by auto
    show ?thesis
    proof (cases "d \<in> fst ` set (lru w)")
      case True
      then show ?thesis using q by (simp add: perform_results sync_results_hit)
    next
      case False
      then show ?thesis using q by (simp add: perform_results sync_results_miss)
    qed
  qed
qed

lemma session_results_subset:
  "set (results (session fmt cs w)) \<subseteq>
     set (results w) \<union> set (concat (map constructed (requests cs)))"
proof (induction cs arbitrary: w)
  case Nil
  then show ?case by simp
next
  case (Cons c cs)
  from Cons.IH [of "perform fmt c w"] perform_results_subset [of fmt c w]
  show ?case by auto
qed

lemma constructed_elem:
  assumes "r \<in> set (concat (map constructed qs))"
  shows "\<exists>data. (domain r, Answers data) \<in> set qs \<and> r = make_result (domain r) data"
proof -
  from assms obtain q where q: "q \<in> set qs" and r: "r \<in> set (constructed q)" by auto
  then show ?thesis by (cases q rule: constructed.cases) auto
qed

text \<open>
  Claim C8. Records are values here: the module has no assignment to a field of a
  \<^verbatim>\<open>WhoisResult\<close>, so no operation takes a record and returns a changed one. No sequence
  of calls (lookups, displays, exports) changes or removes a record already in the
  store: the store before is a prefix of the store after. And
  every record in the store of a tool is the record \<^verbatim>\<open>WhoisResult(domain=d, ...)\<close> that a
  lookup of \<open>d\<close> in the session constructed from the collaborator's answer, so its
  \<open>domain\<close> is the string that lookup was given.
\<close>

theorem stored_records_never_change:
  "prefix (results w) (results (session fmt cs w)) \<and>
   (\<forall>r \<in> set (results (session fmt cs (init ds fs))).
      \<exists>data. (domain r, Answers data) \<in> set (requests cs) \<and> r = make_result (domain r) data)"
proof
  show "prefix (results w) (results (session fmt cs w))" by (rule session_prefix)
next
  show "\<forall>r \<in> set (results (session fmt cs (init ds fs))).
      \<exists>data. (domain r, Answers data) \<in> set (requests cs) \<and> r = make_result (domain r) data"
  proof
    fix r
    assume "r \<in> set (results (session fmt cs (init ds fs)))"
    with session_results_subset [of fmt cs "init ds fs"]
    have "r \<in> set (concat (map constructed (requests cs)))" by (auto simp: init_def)
    then show "\<exists>data. (domain r, Answers data) \<in> set (requests cs) \<and>
        r = make_result (domain r) data"
      by (rule constructed_elem)
  qed
qed

theorem stored_records_never_change_witness:
  "results ex_world = [make_result ''example.com'' ex_entry] \<and>
   prefix [make_result ''example.com'' ex_entry] (results (session ex_text ex_calls ex_world)) \<and>
   make_result ''example.net'' ex_entry \<in> set (results (session ex_text ex_calls (init {} Map.empty))) \<and>
   (\<exists>data. (''example.net'', Answers data) \<in> set (requests ex_calls) \<and>
           make_result ''example.net'' ex_entry = make_result ''example.net'' data)"
proof -
  have stored: "results ex_world = [make_result ''example.com'' ex_entry]"
    using ex_first_lookup sync_results_miss [of "''example.com''" ex_start "Answers ex_entry"]
    by (simp add: ex_start_def init_def)
  have mem: "make_result ''example.net'' ex_entry \<in>
      set (results (session ex_text ex_calls (init {} Map.empty)))"
    by (simp add: ex_calls_def init_def perform_whois_async_def perform_whois_sync_def
        whois_sync_body_def cache_store_def cache_hit_def maxsize_def display_result_def
        export_to_json_def no_faults_def Let_def)
  note all = stored_records_never_change [of ex_world ex_text ex_calls "{}" Map.empty]
  from all have pre: "prefix (results ex_world) (results (session ex_text ex_calls ex_world))"
    by (rule conjunct1)
  from all have "\<forall>r \<in> set (results (session ex_text ex_calls (init {} Map.empty))).
      \<exists>data. (domain r, Answers data) \<in> set (requests ex_calls) \<and>
             r = make_result (domain r) data"
    by (rule conjunct2)
  from this mem have "\<exists>data.
      (domain (make_result ''example.net'' ex_entry), Answers data) \<in> set (requests ex_calls) \<and>
      make_result ''example.net'' ex_entry =
        make_result (domain (make_result ''example.net'' ex_entry)) data"
    by (rule bspec)
  then have made: "\<exists>data. (''example.net'', Answers data) \<in> set (requests ex_calls) \<and>
      make_result ''example.net'' ex_entry = make_result ''example.net'' data"
    by simp
  show ?thesis
    using stored mem pre made by simp
qed

section \<open>Properties of the exports\<close>

lemma to_dict_keys:
  "map fst (to_dict fmt r) =
     [''domain'', ''registrar'', ''whois_server'', ''creation_date'', ''expiration_date'',
      ''updated_date'', ''status'', ''name_servers'', ''emails'']"
  by (simp add: to_dict_def asdict_def)

lemma dict_to_list_to_dict:
  "dict_to_list (map fst (to_dict fmt r0)) (to_dict fmt r) =
     Inr (map (\<lambda>kv. csv_cell (snd kv)) (to_dict fmt r))"
  unfolding to_dict_keys
  by (simp add: dict_to_list_def to_dict_def asdict_def)

lemma writerows_to_dict:
  "writerows (map fst (to_dict fmt r0)) (map (to_dict fmt) rs) =
     Inr (map (\<lambda>r. map (\<lambda>kv. csv_cell (snd kv)) (to_dict fmt r)) rs)"
  by (induction rs) (simp_all add: dict_to_list_to_dict)

lemma ex_world_results: "results ex_world = [make_result ''example.com'' ex_entry]"
  by (simp add: ex_world_def ex_start_def init_def perform_whois_sync_def whois_sync_body_def
      Let_def)

lemma ex_world_log:
  "log ex_world = [Info_performing ''example.com'', Info_successful ''example.com'']"
  by (simp add: ex_world_def ex_start_def init_def perform_whois_sync_def whois_sync_body_def
      Let_def)

lemma ex_to_dict:
  "to_dict ex_text (make_result ''example.com'' ex_entry) =
     [(''domain'', Some ''example.com''), (''registrar'', Some ''IANA''),
      (''whois_server'', None), (''creation_date'', Some ''date''),
      (''expiration_date'', None), (''updated_date'', Some ''[datetime, datetime]''),
      (''status'', Some (''['' @ [CHR 0x27] @ ''active'' @ [CHR 0x27] @ '']'')),
      (''name_servers'', None), (''emails'', Some [])]"
  by (simp add: to_dict_def asdict_def make_result_def ex_entry_def ex_text_def str_list_def)

text \<open>
  Claim C6. When no file-system request fails, \<^verbatim>\<open>export_to_json\<close> returns normally, the
  target file holds the JSON array of the stored records in order, each the object of its
  \<^verbatim>\<open>to_dict()\<close> (a string for a string, \<^verbatim>\<open>null\<close> for \<^verbatim>\<open>None\<close>), the parent directory of the
  target and all its ancestors exist, and the export is logged. When a request fails with
  message \<open>m\<close>, the call raises that \<^verbatim>\<open>OSError\<close> to its caller after logging it.
\<close>

theorem export_to_json_outcome:
  "(first_fault io = None \<longrightarrow>
      fst (export_to_json fmt io p w) = Inr () \<and>
      files (snd (export_to_json fmt io p w)) p =
        Some (Json_text (JArray (map (\<lambda>r. json_object (to_dict fmt r)) (results w)))) \<and>
      set (prefixes (parent p)) \<subseteq> dirs (snd (export_to_json fmt io p w)) \<and>
      log (snd (export_to_json fmt io p w)) = log w @ [Info_exported_json p]) \<and>
   (\<forall>m. first_fault io = Some m \<longrightarrow>
      fst (export_to_json fmt io p w) = Inl (OSError m) \<and>
      log (snd (export_to_json fmt io p w)) = log w @ [Error_exporting_json (OSError m)])"
  by (simp add: export_to_json_def first_fault_def json_failed_def mkdir_parents_def Let_def
      split: option.splits)

theorem export_to_json_outcome_witness:
  "first_fault no_faults = None \<and>
   fst (export_to_json ex_text no_faults ex_path ex_world) = Inr () \<and>
   files (snd (export_to_json ex_text no_faults ex_path ex_world)) ex_path =
     Some (Json_text (JArray
       [JObject [(''domain'', JString ''example.com''), (''registrar'', JString ''IANA''),
                 (''whois_server'', JNull), (''creation_date'', JString ''date''),
                 (''expiration_date'', JNull),
                 (''updated_date'', JString ''[datetime, datetime]''),
                 (''status'', JString (''['' @ [CHR 0x27] @ ''active'' @ [CHR 0x27] @ '']'')),
                 (''name_servers'', JNull), (''emails'', JString [])]])) \<and>
   [''out''] \<in> dirs (snd (export_to_json ex_text no_faults ex_path ex_world)) \<and>
   log (snd (export_to_json ex_text no_faults ex_path ex_world)) =
     [Info_performing ''example.com'', Info_successful ''example.com'',
      Info_exported_json ex_path] \<and>
   first_fault (no_faults\<lparr>open_fault := Some ''Permission denied''\<rparr>) =
     Some ''Permission denied'' \<and>
   fst (export_to_json ex_text (no_faults\<lparr>open_fault := Some ''Permission denied''\<rparr>)
          ex_path ex_world) =
     Inl (OSError ''Permission denied'') \<and>
   log (snd (export_to_json ex_text (no_faults\<lparr>open_fault := Some ''Permission denied''\<rparr>)
               ex_path ex_world)) =
     [Info_performing ''example.com'', Info_successful ''example.com'',
      Error_exporting_json (OSError ''Permission denied'')]"
proof -
  have ok: "first_fault no_faults = None"
    by (simp add: first_fault_def no_faults_def)
  have bad: "first_fault (no_faults\<lparr>open_fault := Some ''Permission denied''\<rparr>) =
      Some ''Permission denied''"
    by (simp add: first_fault_def no_faults_def)
  have dir: "[''out''] \<in> set (prefixes (parent ex_path))"
    by (simp add: parent_def ex_path_def)
  show ?thesis
    using ok bad dir
      export_to_json_outcome [of no_faults ex_text ex_path ex_world]
      export_to_json_outcome [of "no_faults\<lparr>open_fault := Some ''Permission denied''\<rparr>"
        ex_text ex_path ex_world]
    by (auto simp add: ex_world_results ex_world_log ex_to_dict json_object_def)
qed

text \<open>
  Claim C9. On an empty store \<^verbatim>\<open>export_to_json\<close> never raises a \<^verbatim>\<open>ValueError\<close>, whatever the
  file system does; when no file-system request fails it returns normally and the target
  file holds the empty JSON array, where \<^verbatim>\<open>export_to_csv\<close>, called in the same world with
  the same file system, raises \<^verbatim>\<open>ValueError('No results to export')\<close>.
\<close>

theorem export_to_json_empty_store:
  assumes "results w = []"
  shows "(\<forall>m. fst (export_to_json fmt io p w) \<noteq> Inl (ValueError m)) \<and>
         (first_fault io = None \<longrightarrow>
            fst (export_to_json fmt io p w) = Inr () \<and>
            files (snd (export_to_json fmt io p w)) p = Some (Json_text (JArray [])) \<and>
            fst (export_to_csv fmt io p w) = Inl (ValueError ''No results to export''))"
  using assms
  by (simp add: export_to_json_def export_to_csv_def first_fault_def json_failed_def
      csv_failed_def Let_def split: option.splits)

theorem export_to_json_empty_store_witness:
  "results ex_start = [] \<and>
   first_fault no_faults = None \<and>
   fst (export_to_json ex_text no_faults ex_path ex_start) = Inr () \<and>
   files (snd (export_to_json ex_text no_faults ex_path ex_start)) ex_path =
     Some (Json_text (JArray [])) \<and>
   fst (export_to_csv ex_text no_faults ex_path ex_start) =
     Inl (ValueError ''No results to export'')"
proof -
  have empty: "results ex_start = []"
    by (simp add: ex_start_def init_def)
  have ok: "first_fault no_faults = None"
    by (simp add: first_fault_def no_faults_def)
  show ?thesis
    using empty ok export_to_json_empty_store [OF empty, of ex_text no_faults ex_path]
    by simp
qed

text \<open>
  Claim C10. Neither export changes the list \<^verbatim>\<open>results\<close>: in every world, for every target
  path and whatever the file system does (so whether the call returns or raises), the
  list after the call is the list before it.
\<close>

theorem export_keeps_results:
  "results (snd (export_to_json fmt io p w)) = results w \<and>
   results (snd (export_to_csv fmt io p w)) = results w"
  by (simp add: export_to_json_def export_to_csv_def json_failed_def csv_failed_def Let_def
      split: option.splits list.splits sum.splits)

text \<open>
  Claim C7. On a non-empty store \<^verbatim>\<open>export_to_csv\<close> returns normally exactly when no
  file-system request fails, and the file it has then written holds the header row, which
  is the list of field names of the first stored record in insertion order (the nine
  names of the dataclass), followed by one row of cells for each stored record in order:
  as many rows as records, plus one.
\<close>

theorem export_to_csv_rows:
  assumes "results w \<noteq> []"
  shows "(fst (export_to_csv fmt io p w) = Inr ()) = (first_fault io = None) \<and>
         (first_fault io = None \<longrightarrow>
            files (snd (export_to_csv fmt io p w)) p =
              Some (Csv_text (map fst (to_dict fmt (hd (results w))) #
                              map (\<lambda>r. map (\<lambda>kv. csv_cell (snd kv)) (to_dict fmt r)) (results w))) \<and>
            (\<exists>rows. files (snd (export_to_csv fmt io p w)) p = Some (Csv_text rows) \<and>
                    length rows = length (results w) + 1)) \<and>
         map fst (to_dict fmt (hd (results w))) =
           [''domain'', ''registrar'', ''whois_server'', ''creation_date'', ''expiration_date'',
            ''updated_date'', ''status'', ''name_servers'', ''emails'']"
proof -
  obtain r0 rs where rs: "results w = r0 # rs"
    using assms by (cases "results w") auto
  have wr: "writerows (map fst (to_dict fmt r0)) (to_dict fmt r0 # map (to_dict fmt) rs) =
        Inr (map (\<lambda>r. map (\<lambda>kv. csv_cell (snd kv)) (to_dict fmt r)) (r0 # rs))"
    using writerows_to_dict [of fmt r0 "r0 # rs"] by simp
  have written: "(fst (export_to_csv fmt io p w) = Inr ()) = (first_fault io = None) \<and>
         (first_fault io = None \<longrightarrow>
            files (snd (export_to_csv fmt io p w)) p =
              Some (Csv_text (map fst (to_dict fmt (hd (results w))) #
                              map (\<lambda>r. map (\<lambda>kv. csv_cell (snd kv)) (to_dict fmt r)) (results w))) \<and>
            (\<exists>rows. files (snd (export_to_csv fmt io p w)) p = Some (Csv_text rows) \<and>
                    length rows = length (results w) + 1))"
    using rs wr
    by (simp add: export_to_csv_def csv_failed_def first_fault_def Let_def
      split: option.splits del: writerows.simps)
  then show ?thesis
    using to_dict_keys [of fmt "hd (results w)"] by simp
qed

theorem export_to_csv_rows_witness:
  "results ex_world \<noteq> [] \<and>
   first_fault no_faults = None \<and>
   fst (export_to_csv ex_text no_faults ex_path ex_world) = Inr () \<and>
   files (snd (export_to_csv ex_text no_faults ex_path ex_world)) ex_path =
     Some (Csv_text
       [[''domain'', ''registrar'', ''whois_server'', ''creation_date'', ''expiration_date'',
         ''updated_date'', ''status'', ''name_servers'', ''emails''],
        [''example.com'', ''IANA'', [], ''date'', [], ''[datetime, datetime]'',
         ''['' @ [CHR 0x27] @ ''active'' @ [CHR 0x27] @ '']'', [], []]])"
proof -
  have nonempty: "results ex_world \<noteq> []"
    by (simp add: ex_world_results)
  have ok: "first_fault no_faults = None"
    by (simp add: first_fault_def no_faults_def)
  show ?thesis
    using nonempty ok export_to_csv_rows [OF nonempty, of ex_text no_faults ex_path]
    by (simp add: ex_world_results ex_to_dict csv_cell_def)
qed

text \<open>
  Claim C3, as stated, fails: with an empty store and a target that cannot be opened for
  writing (here the path with no component, the directory itself, which is what an empty
  file name denotes), \<^verbatim>\<open>export_to_csv\<close> raises the \<^verbatim>\<open>OSError\<close> of \<^verbatim>\<open>open\<close>, not the
  \<^verbatim>\<open>ValueError\<close>: the file is opened before the store is tested.
\<close>

theorem export_to_csv_empty_store_unwritable:
  "results ex_start = [] \<and>
   fst (export_to_csv ex_text (no_faults\<lparr>open_fault := Some ''Is a directory''\<rparr>) [] ex_start) =
     Inl (OSError ''Is a directory'') \<and>
   fst (export_to_csv ex_text (no_faults\<lparr>open_fault := Some ''Is a directory''\<rparr>) [] ex_start) \<noteq>
     Inl (ValueError ''No results to export'')"
  by (simp add: export_to_csv_def csv_failed_def no_faults_def ex_start_def init_def)

text \<open>
  Claim C3, amended. On an empty store: when the parent directory can be made and the
  target file opened, \<^verbatim>\<open>export_to_csv\<close> raises \<^verbatim>\<open>ValueError('No results to export')\<close> and
  leaves the target file existing and empty, no header having been written (the files
  are those from before with the target bound to the empty file); when making the
  directory or opening the file fails, it raises that \<^verbatim>\<open>OSError\<close> and leaves every file as
  it was.
\<close>

theorem export_to_csv_empty_store:
  assumes "results w = []"
  shows "(mkdir_fault io = None \<and> open_fault io = None \<longrightarrow>
            fst (export_to_csv fmt io p w) = Inl (ValueError ''No results to export'') \<and>
            files (snd (export_to_csv fmt io p w)) = (files w)(p \<mapsto> Empty_file)) \<and>
         (\<forall>m. mkdir_fault io = Some m \<or> (mkdir_fault io = None \<and> open_fault io = Some m) \<longrightarrow>
            fst (export_to_csv fmt io p w) = Inl (OSError m) \<and>
            files (snd (export_to_csv fmt io p w)) = files w)"
  using assms
  by (auto simp add: export_to_csv_def csv_failed_def Let_def split: option.splits)

theorem export_to_csv_empty_store_witness:
  "results ex_start = [] \<and>
   mkdir_fault no_faults = None \<and> open_fault no_faults = None \<and>
   fst (export_to_csv ex_text no_faults ex_path ex_start) =
     Inl (ValueError ''No results to export'') \<and>
   files (snd (export_to_csv ex_text no_faults ex_path ex_start)) ex_path = Some Empty_file"
proof -
  have empty: "results ex_start = []"
    by (simp add: ex_start_def init_def)
  have ok: "mkdir_fault no_faults = None \<and> open_fault no_faults = None"
    by (simp add: no_faults_def)
  show ?thesis
    using empty ok export_to_csv_empty_store [OF empty, of no_faults ex_text ex_path]
    by simp
qed

subsection \<open>One conversion, three presentations\<close>

lemma case_option_Some:
  "(case x of None \<Rightarrow> None | Some y \<Rightarrow> Some (g y)) = map_option g x"
  by (cases x) simp_all

lemma to_dict_fields:
  "to_dict fmt r =
     [(''domain'', Some (domain r)),
      (''registrar'', registrar r),
      (''whois_server'', whois_server r),
      (''creation_date'', map_option (\<lambda>v. py_str fmt (Dates v)) (creation_date r)),
      (''expiration_date'', map_option (\<lambda>v. py_str fmt (Dates v)) (expiration_date r)),
      (''updated_date'', map_option (\<lambda>v. py_str fmt (Dates v)) (updated_date r)),
      (''status'', map_option (\<lambda>v. py_str fmt (Text v)) (status r)),
      (''name_servers'', map_option (\<lambda>v. py_str fmt (Text v)) (name_servers r)),
      (''emails'', map_option (\<lambda>v. py_str fmt (Text v)) (emails r))]"
  by (simp add: to_dict_def asdict_def case_option_Some option.map_comp comp_def option.map_ident)

lemma field_lines_filter:
  "concat (map (\<lambda>(key, v). case v of None \<Rightarrow> []
                              | Some s \<Rightarrow> if s = [] then [] else [Field_line key s]) d) =
     map (\<lambda>(key, v). Field_line key (the v)) (filter (\<lambda>(key, v). v \<noteq> None \<and> v \<noteq> Some []) d)"
  by (induction d) (auto split: option.splits if_splits)

text \<open>
  Claim C5. \<^verbatim>\<open>to_dict\<close> binds each of the nine field names, in declaration order, to the
  text of the field when it is set and to \<^verbatim>\<open>None\<close> when it is not. Each presentation of a
  record is computed from that list alone: \<^verbatim>\<open>display_result\<close> prints to the console, after
  what was there and the banner, the entries whose text is neither \<^verbatim>\<open>None\<close> nor empty, in
  order (and the one line of the missing result for \<^verbatim>\<open>None\<close>); the JSON export writes
  every entry, \<^verbatim>\<open>null\<close> for
  \<^verbatim>\<open>None\<close>; the CSV export writes the keys of the first record as header and the values of
  every record as a row, the empty cell for \<^verbatim>\<open>None\<close>.
\<close>

theorem to_dict_used_uniformly:
  "to_dict fmt r =
     [(''domain'', Some (domain r)),
      (''registrar'', registrar r),
      (''whois_server'', whois_server r),
      (''creation_date'', map_option (\<lambda>v. py_str fmt (Dates v)) (creation_date r)),
      (''expiration_date'', map_option (\<lambda>v. py_str fmt (Dates v)) (expiration_date r)),
      (''updated_date'', map_option (\<lambda>v. py_str fmt (Dates v)) (updated_date r)),
      (''status'', map_option (\<lambda>v. py_str fmt (Text v)) (status r)),
      (''name_servers'', map_option (\<lambda>v. py_str fmt (Text v)) (name_servers r)),
      (''emails'', map_option (\<lambda>v. py_str fmt (Text v)) (emails r))] \<and>
   display_lines fmt (Some r) =
     Results_banner #
     map (\<lambda>(key, v). Field_line key (the v))
         (filter (\<lambda>(key, v). v \<noteq> None \<and> v \<noteq> Some []) (to_dict fmt r)) \<and>
   console (display_result fmt (Some r) w) =
     console w @
     Results_banner #
     map (\<lambda>(key, v). Field_line key (the v))
         (filter (\<lambda>(key, v). v \<noteq> None \<and> v \<noteq> Some []) (to_dict fmt r)) \<and>
   console (display_result fmt None w) = console w @ [No_results_available] \<and>
   (first_fault io = None \<longrightarrow>
      files (snd (export_to_json fmt io p w)) p =
        Some (Json_text (JArray
          (map (\<lambda>r. JObject (map (\<lambda>(key, v). (key, case v of None \<Rightarrow> JNull | Some s \<Rightarrow> JString s))
                                  (to_dict fmt r)))
               (results w))))) \<and>
   (first_fault io = None \<and> results w \<noteq> [] \<longrightarrow>
      files (snd (export_to_csv fmt io p w)) p =
        Some (Csv_text
          (map fst (to_dict fmt (hd (results w))) #
           map (\<lambda>r. map (\<lambda>(key, v). case v of None \<Rightarrow> [] | Some s \<Rightarrow> s) (to_dict fmt r))
               (results w))))"
proof (intro conjI impI)
  show "to_dict fmt r =
     [(''domain'', Some (domain r)),
      (''registrar'', registrar r),
      (''whois_server'', whois_server r),
      (''creation_date'', map_option (\<lambda>v. py_str fmt (Dates v)) (creation_date r)),
      (''expiration_date'', map_option (\<lambda>v. py_str fmt (Dates v)) (expiration_date r)),
      (''updated_date'', map_option (\<lambda>v. py_str fmt (Dates v)) (updated_date r)),
      (''status'', map_option (\<lambda>v. py_str fmt (Text v)) (status r)),
      (''name_servers'', map_option (\<lambda>v. py_str fmt (Text v)) (name_servers r)),
      (''emails'', map_option (\<lambda>v. py_str fmt (Text v)) (emails r))]"
    by (rule to_dict_fields)
next
  show "display_lines fmt (Some r) =
     Results_banner #
     map (\<lambda>(key, v). Field_line key (the v))
         (filter (\<lambda>(key, v). v \<noteq> None \<and> v \<noteq> Some []) (to_dict fmt r))"
    by (simp add: display_lines_def field_lines_filter)
next
  show "console (display_result fmt (Some r) w) =
     console w @
     Results_banner #
     map (\<lambda>(key, v). Field_line key (the v))
         (filter (\<lambda>(key, v). v \<noteq> None \<and> v \<noteq> Some []) (to_dict fmt r))"
    by (simp add: display_result_def display_lines_def field_lines_filter)
next
  show "console (display_result fmt None w) = console w @ [No_results_available]"
    by (simp add: display_result_def display_lines_def)
next
  assume "first_fault io = None"
  then show "files (snd (export_to_json fmt io p w)) p =
        Some (Json_text (JArray
          (map (\<lambda>r. JObject (map (\<lambda>(key, v). (key, case v of None \<Rightarrow> JNull | Some s \<Rightarrow> JString s))
                                  (to_dict fmt r)))
               (results w))))"
    by (simp add: export_to_json_def first_fault_def json_object_def Let_def
        split: option.splits)
next
  assume a: "first_fault io = None \<and> results w \<noteq> []"
  then obtain r0 rs where rs: "results w = r0 # rs"
    by (cases "results w") auto
  have cells: "(\<lambda>kv. csv_cell (snd kv)) =
      (\<lambda>(key, v). case v of None \<Rightarrow> [] | Some s \<Rightarrow> s)"
    by (auto simp: csv_cell_def fun_eq_iff)
  have wr: "writerows (map fst (to_dict fmt r0)) (to_dict fmt r0 # map (to_dict fmt) rs) =
        Inr (map (\<lambda>r. map (\<lambda>kv. csv_cell (snd kv)) (to_dict fmt r)) (r0 # rs))"
    using writerows_to_dict [of fmt r0 "r0 # rs"] by simp
  show "files (snd (export_to_csv fmt io p w)) p =
        Some (Csv_text
          (map fst (to_dict fmt (hd (results w))) #
           map (\<lambda>r. map (\<lambda>(key, v). case v of None \<Rightarrow> [] | Some s \<Rightarrow> s) (to_dict fmt r))
               (results w)))"
    using a rs wr
    by (simp add: export_to_csv_def first_fault_def Let_def cells
        split: option.splits del: writerows.simps)
qed

theorem to_dict_used_uniformly_witness:
  "first_fault no_faults = None \<and> results ex_world \<noteq> [] \<and>
   to_dict ex_text (make_result ''example.com'' ex_entry) =
     [(''domain'', Some ''example.com''), (''registrar'', Some ''IANA''),
      (''whois_server'', None), (''creation_date'', Some ''date''),
      (''expiration_date'', None), (''updated_date'', Some ''[datetime, datetime]''),
      (''status'', Some (''['' @ [CHR 0x27] @ ''active'' @ [CHR 0x27] @ '']'')),
      (''name_servers'', None), (''emails'', Some [])] \<and>
   display_lines ex_text (Some (make_result ''example.com'' ex_entry)) =
     [Results_banner, Field_line ''domain'' ''example.com'', Field_line ''registrar'' ''IANA'',
      Field_line ''creation_date'' ''date'',
      Field_line ''updated_date'' ''[datetime, datetime]'',
      Field_line ''status'' (''['' @ [CHR 0x27] @ ''active'' @ [CHR 0x27] @ '']'')] \<and>
   console (display_result ex_text (Some (make_result ''example.com'' ex_entry)) ex_world) =
     [Results_banner, Field_line ''domain'' ''example.com'', Field_line ''registrar'' ''IANA'',
      Field_line ''creation_date'' ''date'',
      Field_line ''updated_date'' ''[datetime, datetime]'',
      Field_line ''status'' (''['' @ [CHR 0x27] @ ''active'' @ [CHR 0x27] @ '']'')] \<and>
   console (display_result ex_text None ex_world) = [No_results_available] \<and>
   files (snd (export_to_json ex_text no_faults ex_path ex_world)) ex_path =
     Some (Json_text (JArray
       [JObject [(''domain'', JString ''example.com''), (''registrar'', JString ''IANA''),
                 (''whois_server'', JNull), (''creation_date'', JString ''date''),
                 (''expiration_date'', JNull),
                 (''updated_date'', JString ''[datetime, datetime]''),
                 (''status'', JString (''['' @ [CHR 0x27] @ ''active'' @ [CHR 0x27] @ '']'')),
                 (''name_servers'', JNull), (''emails'', JString [])]])) \<and>
   files (snd (export_to_csv ex_text no_faults ex_path ex_world)) ex_path =
     Some (Csv_text
       [[''domain'', ''registrar'', ''whois_server'', ''creation_date'', ''expiration_date'',
         ''updated_date'', ''status'', ''name_servers'', ''emails''],
        [''example.com'', ''IANA'', [], ''date'', [], ''[datetime, datetime]'',
         ''['' @ [CHR 0x27] @ ''active'' @ [CHR 0x27] @ '']'', [], []]])"
proof -
  have ok: "first_fault no_faults = None"
    by (simp add: first_fault_def no_faults_def)
  have nonempty: "results ex_world \<noteq> []"
    by (simp add: ex_world_results)
  note all = to_dict_used_uniformly
    [where fmt = ex_text and r = "make_result ''example.com'' ex_entry" and w = ex_world
       and io = no_faults and p = ex_path]
  have shown: "display_lines ex_text (Some (make_result ''example.com'' ex_entry)) =
     [Results_banner, Field_line ''domain'' ''example.com'', Field_line ''registrar'' ''IANA'',
      Field_line ''creation_date'' ''date'',
      Field_line ''updated_date'' ''[datetime, datetime]'',
      Field_line ''status'' (''['' @ [CHR 0x27] @ ''active'' @ [CHR 0x27] @ '']'')]"
    using all [THEN conjunct2, THEN conjunct1] by (simp add: ex_to_dict)
  have quiet: "console ex_world = []"
    by (simp add: ex_world_def ex_start_def init_def perform_whois_sync_def whois_sync_body_def
        Let_def)
  have printed: "console (display_result ex_text (Some (make_result ''example.com'' ex_entry))
        ex_world) =
     [Results_banner, Field_line ''domain'' ''example.com'', Field_line ''registrar'' ''IANA'',
      Field_line ''creation_date'' ''date'',
      Field_line ''updated_date'' ''[datetime, datetime]'',
      Field_line ''status'' (''['' @ [CHR 0x27] @ ''active'' @ [CHR 0x27] @ '']'')]"
    using all [THEN conjunct2, THEN conjunct2, THEN conjunct1] quiet
    by (simp add: ex_to_dict)
  have missing: "console (display_result ex_text None ex_world) = [No_results_available]"
    using all [THEN conjunct2, THEN conjunct2, THEN conjunct2, THEN conjunct1] quiet
    by simp
  have json: "files (snd (export_to_json ex_text no_faults ex_path ex_world)) ex_path =
     Some (Json_text (JArray
       [JObject [(''domain'', JString ''example.com''), (''registrar'', JString ''IANA''),
                 (''whois_server'', JNull), (''creation_date'', JString ''date''),
                 (''expiration_date'', JNull),
                 (''updated_date'', JString ''[datetime, datetime]''),
                 (''status'', JString (''['' @ [CHR 0x27] @ ''active'' @ [CHR 0x27] @ '']'')),
                 (''name_servers'', JNull), (''emails'', JString [])]]))"
    using all [THEN conjunct2, THEN conjunct2, THEN conjunct2, THEN conjunct2, THEN conjunct1] ok
    by (simp add: ex_world_results ex_to_dict)
  have csv: "files (snd (export_to_csv ex_text no_faults ex_path ex_world)) ex_path =
     Some (Csv_text
       [[''domain'', ''registrar'', ''whois_server'', ''creation_date'', ''expiration_date'',
         ''updated_date'', ''status'', ''name_servers'', ''emails''],
        [''example.com'', ''IANA'', [], ''date'', [], ''[datetime, datetime]'',
         ''['' @ [CHR 0x27] @ ''active'' @ [CHR 0x27] @ '']'', [], []]])"
    using all [THEN conjunct2, THEN conjunct2, THEN conjunct2, THEN conjunct2, THEN conjunct2]
      ok nonempty
    by (simp add: ex_world_results ex_to_dict)
  show ?thesis
    using ok nonempty shown printed missing json csv by (simp add: ex_to_dict)
qed

end
